theory Spec2Isabelle
  imports Main "HOL-Library.Multiset" "HOL-Library.Sublist"
begin

section \<open>Go values used by the linter core\<close>

text \<open>
  Go strings are byte sequences: a \<^typ>\<open>string\<close> here is the list of bytes, and a rune is
  what \<^verbatim>\<open>utf8.DecodeRuneInString\<close> reads at a position.  Go's \<^verbatim>\<open>int\<close> is modelled by
  \<^typ>\<open>int\<close>; where the source computes with it, the 64-bit wrap-around is written out
  with \<open>i64\<close>.
\<close>

definition i64 :: "int \<Rightarrow> int" where
  "i64 x = (x + 2 ^ 63) mod 2 ^ 64 - 2 ^ 63"

definition byte :: "char \<Rightarrow> nat" where
  "byte c = of_char c"

definition in_range :: "nat \<Rightarrow> nat \<Rightarrow> char \<Rightarrow> bool" where
  "in_range lo hi c = (lo \<le> byte c \<and> byte c \<le> hi)"

text \<open>
  \<open>rune_width s\<close> is the width returned by \<^verbatim>\<open>utf8.DecodeRuneInString(s)\<close>: the length of
  a well-formed UTF-8 encoding at the head of \<open>s\<close>, and 1 for an ill-formed or truncated one.
\<close>

fun rune_width :: "string \<Rightarrow> nat" where
  "rune_width [] = 0"
| "rune_width (c # cs) =
     (let b = byte c in
      if b < 0xC2 then 1
      else if b < 0xE0 then
        (case cs of
           c1 # _ \<Rightarrow> if in_range 0x80 0xBF c1 then 2 else 1
         | [] \<Rightarrow> 1)
      else if b < 0xF0 then
        (case cs of
           c1 # c2 # _ \<Rightarrow>
             if in_range (if b = 0xE0 then 0xA0 else 0x80) (if b = 0xED then 0x9F else 0xBF) c1
                \<and> in_range 0x80 0xBF c2
             then 3 else 1
         | _ \<Rightarrow> 1)
      else if b < 0xF5 then
        (case cs of
           c1 # c2 # c3 # _ \<Rightarrow>
             if in_range (if b = 0xF0 then 0x90 else 0x80) (if b = 0xF4 then 0x8F else 0xBF) c1
                \<and> in_range 0x80 0xBF c2 \<and> in_range 0x80 0xBF c3
             then 4 else 1
         | _ \<Rightarrow> 1)
      else 1)"

text \<open>\<^verbatim>\<open>utf8.RuneCountInString\<close>: the first argument counts the bytes of the current rune
  still to be skipped.\<close>

fun rune_count_from :: "nat \<Rightarrow> string \<Rightarrow> int" where
  "rune_count_from k [] = 0"
| "rune_count_from 0 (c # cs) = 1 + rune_count_from (rune_width (c # cs) - 1) cs"
| "rune_count_from (Suc k) (c # cs) = rune_count_from k cs"

definition RuneCountInString :: "string \<Rightarrow> int" where
  "RuneCountInString s = rune_count_from 0 s"

text \<open>\<^verbatim>\<open>strings.Split(s, sep)\<close> for a one-byte separator: always at least one part.\<close>

fun Split :: "string \<Rightarrow> char \<Rightarrow> string list" where
  "Split [] sep = [[]]"
| "Split (c # cs) sep =
     (if c = sep then [] # Split cs sep
      else (case Split cs sep of
              p # ps \<Rightarrow> (c # p) # ps
            | [] \<Rightarrow> [[c]]))"

text \<open>\<^verbatim>\<open>strings.SplitAfter(s, "\n")\<close>: each part keeps its newline.\<close>

fun SplitAfter_nl :: "string \<Rightarrow> string list" where
  "SplitAfter_nl [] = [[]]"
| "SplitAfter_nl (c # cs) =
     (if c = CHR 0x0A then [c] # SplitAfter_nl cs
      else (case SplitAfter_nl cs of
              p # ps \<Rightarrow> (c # p) # ps
            | [] \<Rightarrow> [[c]]))"

text \<open>\<^verbatim>\<open>strings.Join\<close> and \<^verbatim>\<open>strconv.Itoa\<close>.\<close>

fun Join :: "string list \<Rightarrow> string \<Rightarrow> string" where
  "Join [] sep = []"
| "Join [s] sep = s"
| "Join (s # t # ss) sep = s @ sep @ Join (t # ss) sep"

definition digit_char :: "nat \<Rightarrow> char" where
  "digit_char d = ''0123456789'' ! d"

fun nat_dec :: "nat \<Rightarrow> string" where
  "nat_dec n = (if n < 10 then [digit_char n] else nat_dec (n div 10) @ [digit_char (n mod 10)])"

declare nat_dec.simps [simp del]

definition Itoa :: "int \<Rightarrow> string" where
  "Itoa i = (if i < 0 then CHR ''-'' # nat_dec (nat (- i)) else nat_dec (nat i))"

text \<open>A map read: Go returns the zero value for an absent key.\<close>

definition lookup_bool :: "(string \<rightharpoonup> bool) \<Rightarrow> string \<Rightarrow> bool" where
  "lookup_bool m k = (case m k of Some v \<Rightarrow> v | None \<Rightarrow> False)"

section \<open>core: alerts and files\<close>

record Action =
  Name :: string
  Params :: "string list"

text \<open>
  \<open>Span\<close> is the two-element slice \<^verbatim>\<open>[begin, end]\<close> of the source.  Every rule of the
  check package builds a fresh slice for each alert, so an alert owns its span: the writes of
  \<^verbatim>\<open>FindLoc\<close> into it are the new span of that alert alone.
\<close>

record Alert =
  Action :: Action
  Check :: string
  Description :: string
  Line :: int
  Link :: string
  Message :: string
  Severity :: string
  Span :: "int \<times> int"
  Match :: string
  Hide :: bool

text \<open>
  The fields of \<^verbatim>\<open>File\<close> that \<^verbatim>\<open>FindLoc\<close>, \<^verbatim>\<open>AddAlert\<close>, \<^verbatim>\<open>SortedAlerts\<close> and the comment
  functions read or write.  The three maps are allocated maps: \<^verbatim>\<open>NewFile\<close> allocates
  \<^verbatim>\<open>Comments\<close> and \<^verbatim>\<open>history\<close>, and \<^verbatim>\<open>AddAlert\<close> writes to \<^verbatim>\<open>ChkToCtx\<close>, which its caller has
  to allocate.  \<open>'m\<close> is the closest-match index.
\<close>

record 'm File =
  Alerts :: "Alert list"
  ChkToCtx :: "string \<rightharpoonup> string"
  Comments :: "string \<rightharpoonup> bool"
  Format :: string
  Lines :: "string list"
  Simple :: bool
  history :: "string \<rightharpoonup> int"
  matcher :: 'm

section \<open>core: comment control\<close>

text \<open>
  \<^verbatim>\<open>commentControlRE = ^vale (\w+.\w+) = (YES|NO)$\<close>.  The pattern is anchored at both
  ends, so a match is the whole comment: the prefix \<^verbatim>\<open>vale \<close>, a name matching
  \<^verbatim>\<open>\w+.\w+\<close> (the dot is unescaped: any rune but a newline), and \<^verbatim>\<open> = YES\<close> or \<^verbatim>\<open> = NO\<close>.
\<close>

definition is_word_char :: "char \<Rightarrow> bool" where
  "is_word_char c =
     (in_range 0x30 0x39 c \<or> in_range 0x41 0x5A c \<or> in_range 0x61 0x7A c \<or> c = CHR ''_'')"

definition dot_then_words :: "string \<Rightarrow> bool" where
  "dot_then_words s =
     (case s of
        [] \<Rightarrow> False
      | c # _ \<Rightarrow> c \<noteq> CHR 0x0A \<and>
          (let r = drop (rune_width s) s in r \<noteq> [] \<and> list_all is_word_char r))"

fun after_word :: "string \<Rightarrow> bool" where
  "after_word [] = False"
| "after_word (c # cs) = (dot_then_words (c # cs) \<or> (is_word_char c \<and> after_word cs))"

definition name_re :: "string \<Rightarrow> bool" where
  "name_re s = (case s of [] \<Rightarrow> False | c # cs \<Rightarrow> is_word_char c \<and> after_word cs)"

definition strip_prefix :: "string \<Rightarrow> string \<Rightarrow> string option" where
  "strip_prefix p s = (if take (length p) s = p then Some (drop (length p) s) else None)"

definition strip_suffix :: "string \<Rightarrow> string \<Rightarrow> string option" where
  "strip_suffix p s =
     (if length p \<le> length s \<and> drop (length s - length p) s = p
      then Some (take (length s - length p) s) else None)"

text \<open>\<^verbatim>\<open>commentControlRE.FindStringSubmatch\<close>: \<open>None\<close> is the nil slice of a failed match.\<close>

definition commentControlRE_FindStringSubmatch :: "string \<Rightarrow> string list option" where
  "commentControlRE_FindStringSubmatch comment =
     (case strip_prefix ''vale '' comment of
        None \<Rightarrow> None
      | Some rest \<Rightarrow>
          (case strip_suffix '' = YES'' rest of
             Some x \<Rightarrow> if name_re x then Some [comment, x, ''YES''] else None
           | None \<Rightarrow>
               (case strip_suffix '' = NO'' rest of
                  Some x \<Rightarrow> if name_re x then Some [comment, x, ''NO''] else None
                | None \<Rightarrow> None)))"

definition commentControlRE_MatchString :: "string \<Rightarrow> bool" where
  "commentControlRE_MatchString comment = (commentControlRE_FindStringSubmatch comment \<noteq> None)"

definition UpdateComments :: "string \<Rightarrow> 'm File \<Rightarrow> 'm File" where
  "UpdateComments comment f =
     (if comment = ''vale off'' then f\<lparr>Comments := (Comments f)(''off'' \<mapsto> True)\<rparr>
      else if comment = ''vale on'' then f\<lparr>Comments := (Comments f)(''off'' \<mapsto> False)\<rparr>
      else if commentControlRE_MatchString comment then
        (case commentControlRE_FindStringSubmatch comment of
           Some check \<Rightarrow>
             if length check = 3
             then f\<lparr>Comments := (Comments f)(check ! 1 \<mapsto> (check ! 2 = ''NO''))\<rparr>
             else f
         | None \<Rightarrow> f)
      else f)"

definition QueryComments :: "'m File \<Rightarrow> string \<Rightarrow> bool" where
  "QueryComments f check =
     (if \<not> lookup_bool (Comments f) ''off'' then
        (case Comments f check of
           Some status \<Rightarrow> status
         | None \<Rightarrow> lookup_bool (Comments f) ''off'')
      else lookup_bool (Comments f) ''off'')"

section \<open>core: selectors\<close>

record Selector =
  Value :: string

definition Sections :: "Selector \<Rightarrow> string list" where
  "Sections s = Split (Value s) CHR ''.''"

text \<open>
  Modelled from the spec: \<^verbatim>\<open>core.StringInSlice\<close> and \<^verbatim>\<open>core.AllStringsInSlice\<close>
  (core/util.go) are called by \<^verbatim>\<open>Has\<close>, \<^verbatim>\<open>Contains\<close> and \<^verbatim>\<open>validateDefinition\<close>, and their
  bodies are not among the sources.  \<open>StringInSlice\<close> follows ``A.Has("x") iff "x" is any
  token of A''.  \<open>AllStringsInSlice\<close> follows ``A.Contains(B) iff every token of B appears
  in A in order'': the strings are looked up in the slice from left to right, each one after
  the place where the one before it was found.  (The comment on \<^verbatim>\<open>Contains\<close> in the source
  says only that it ``determines if all of sel's sections are in s''.)
\<close>

fun StringInSlice :: "string \<Rightarrow> string list \<Rightarrow> bool" where
  "StringInSlice a [] = False"
| "StringInSlice a (b # slice) = (if a = b then True else StringInSlice a slice)"

fun AllStringsInSlice :: "string list \<Rightarrow> string list \<Rightarrow> bool" where
  "AllStringsInSlice [] slice = True"
| "AllStringsInSlice (s # strings) [] = False"
| "AllStringsInSlice (s # strings) (b # slice) =
     (if s = b then AllStringsInSlice strings slice else AllStringsInSlice (s # strings) slice)"

definition Contains :: "Selector \<Rightarrow> Selector \<Rightarrow> bool" where
  "Contains s sel = AllStringsInSlice (Sections sel) (Sections s)"

definition Equal :: "Selector \<Rightarrow> Selector \<Rightarrow> bool" where
  "Equal s sel = (Value s = Value sel)"

definition Has :: "Selector \<Rightarrow> string \<Rightarrow> bool" where
  "Has s scope = StringInSlice scope (Sections s)"

section \<open>core: sorting alerts by position\<close>

definition Less :: "Alert \<Rightarrow> Alert \<Rightarrow> bool" where
  "Less ai aj = (if Line ai \<noteq> Line aj then Line ai < Line aj else fst (Span ai) < fst (Span aj))"

text \<open>
  \<^verbatim>\<open>sort.Sort\<close> (Go's standard library) is modelled by the insertion sort of that package,
  which only calls \<^verbatim>\<open>Less(j, j-1)\<close> and \<^verbatim>\<open>Swap(j, j-1)\<close>: \<open>sink\<close> moves the new element left
  while it is less than its left neighbour.  The sorted prefix is kept reversed, nearest
  neighbour first.  The library may order alerts that compare equal differently; what is
  proved of the result below holds of every rearrangement without a pair out of order
  (lemma \<open>ordered_of_no_inversion\<close>).
\<close>

fun sink :: "('a \<Rightarrow> 'a \<Rightarrow> bool) \<Rightarrow> 'a \<Rightarrow> 'a list \<Rightarrow> 'a list" where
  "sink lt x [] = [x]"
| "sink lt x (y # ys) = (if lt x y then y # sink lt x ys else x # y # ys)"

fun insertionSort :: "('a \<Rightarrow> 'a \<Rightarrow> bool) \<Rightarrow> 'a list \<Rightarrow> 'a list \<Rightarrow> 'a list" where
  "insertionSort lt done [] = rev done"
| "insertionSort lt done (x # xs) = insertionSort lt (sink lt x done) xs"

definition Sort :: "('a \<Rightarrow> 'a \<Rightarrow> bool) \<Rightarrow> 'a list \<Rightarrow> 'a list" where
  "Sort lt xs = insertionSort lt [] xs"

text \<open>\<^verbatim>\<open>SortedAlerts\<close> sorts \<^verbatim>\<open>f.Alerts\<close> in place and returns it: the file after the call
  and the returned slice.\<close>

definition SortedAlerts :: "'m File \<Rightarrow> 'm File \<times> Alert list" where
  "SortedAlerts f = (let sorted = Sort Less (Alerts f) in (f\<lparr>Alerts := sorted\<rparr>, sorted))"

section \<open>core: locating and recording alerts\<close>

text \<open>
  \<^verbatim>\<open>initialPosition\<close> and \<^verbatim>\<open>Substitute\<close> (core/util.go) are not among the sources; the
  functions below take them as parameters, and the results hold for every choice of them.
\<close>

record 'm core_helpers =
  initialPosition :: "string \<Rightarrow> string \<Rightarrow> 'm \<Rightarrow> int \<times> string"
  Substitute :: "string \<Rightarrow> string \<Rightarrow> char \<Rightarrow> string \<times> bool"

text \<open>The loop of \<^verbatim>\<open>FindLoc\<close> over \<open>lines\<close>; \<open>n\<close> is \<^verbatim>\<open>len(lines)\<close>.\<close>

fun FindLoc_lines ::
  "int \<Rightarrow> string \<Rightarrow> int \<Rightarrow> int \<Rightarrow> int \<Rightarrow> int \<times> int \<Rightarrow> int \<Rightarrow> int \<Rightarrow> string list \<Rightarrow> int \<times> (int \<times> int)"
where
  "FindLoc_lines pos substring pad cnt n loc idx counter [] = (cnt, loc)"
| "FindLoc_lines pos substring pad cnt n loc idx counter (l # ls) =
     (let len = RuneCountInString l in
      if i64 (counter + len) \<ge> pos then
        let loc0 = i64 (i64 (pos - counter) + pad);
            loc1 = i64 (i64 (loc0 + RuneCountInString substring) - 1);
            extent = i64 (len + pad)
        in (i64 (cnt - i64 (n - i64 (idx + 1))), (loc0, if loc1 > extent then extent else loc1))
      else FindLoc_lines pos substring pad cnt n loc (idx + 1) (i64 (counter + len)) ls)"

definition FindLoc ::
  "'m core_helpers \<Rightarrow> 'm File \<Rightarrow> string \<Rightarrow> string \<Rightarrow> string \<Rightarrow> int \<Rightarrow> int \<Rightarrow> int \<times> int
     \<Rightarrow> int \<times> (int \<times> int)"
where
  "FindLoc H f ctx s m pad cnt loc =
     (case initialPosition H ctx m (matcher f) of
        (pos, substring) \<Rightarrow>
          if pos < 0 then (pos, (0, 0))
          else
            let lines = (if Format f = ''markup'' \<and> \<not> Simple f then Lines f
                         else SplitAfter_nl ctx)
            in FindLoc_lines pos substring pad cnt (int (length lines)) loc 0 0 lines)"

text \<open>The key under which \<^verbatim>\<open>AddAlert\<close> records an alert in \<^verbatim>\<open>f.history\<close>.\<close>

definition entry :: "Alert \<Rightarrow> string" where
  "entry a = Join [Itoa (Line a), Itoa (fst (Span a)), Check a] ''-''"

definition AddAlert ::
  "'m core_helpers \<Rightarrow> 'm File \<Rightarrow> Alert \<Rightarrow> string \<Rightarrow> string \<Rightarrow> int \<Rightarrow> int \<Rightarrow> 'm File"
where
  "AddAlert H f a ctx txt lines pad =
     (let ctx = (case ChkToCtx f (Check a) of Some old \<Rightarrow> old | None \<Rightarrow> ctx);
          found = FindLoc H f ctx txt (Match a) pad lines (Span a);
          a = a\<lparr>Line := fst found, Span := snd found\<rparr>
      in if fst (Span a) > 0 then
           let f = f\<lparr>ChkToCtx := (ChkToCtx f)(Check a \<mapsto> fst (Substitute H ctx (Match a) CHR ''#''))\<rparr>
           in if \<not> Hide a then
                if history f (entry a) = None
                then f\<lparr>Alerts := Alerts f @ [a], history := (history f)(entry a \<mapsto> 1)\<rparr>
                else f
              else f
         else f)"

text \<open>One call of \<^verbatim>\<open>AddAlert\<close> with its arguments, and a sequence of calls on a file.\<close>

type_synonym call = "Alert \<times> string \<times> string \<times> int \<times> int"

definition AddAlert_call :: "'m core_helpers \<Rightarrow> 'm File \<Rightarrow> call \<Rightarrow> 'm File" where
  "AddAlert_call H f c = (case c of (a, ctx, txt, lines, pad) \<Rightarrow> AddAlert H f a ctx txt lines pad)"

definition AddAlerts :: "'m core_helpers \<Rightarrow> 'm File \<Rightarrow> call list \<Rightarrow> 'm File" where
  "AddAlerts H f cs = foldl (AddAlert_call H) f cs"

text \<open>The alert as \<^verbatim>\<open>AddAlert\<close> localizes it, and the triple the history key is built from.\<close>

definition localized :: "'m core_helpers \<Rightarrow> 'm File \<Rightarrow> call \<Rightarrow> Alert" where
  "localized H f c =
     (case c of (a, ctx, txt, lines, pad) \<Rightarrow>
        let ctx = (case ChkToCtx f (Check a) of Some old \<Rightarrow> old | None \<Rightarrow> ctx);
            found = FindLoc H f ctx txt (Match a) pad lines (Span a)
        in a\<lparr>Line := fst found, Span := snd found\<rparr>)"

definition triple :: "Alert \<Rightarrow> int \<times> int \<times> string" where
  "triple a = (Line a, fst (Span a), Check a)"

section \<open>check: rule definitions and the external engines\<close>

text \<open>A Go run-time panic: the call does not return.\<close>

datatype panic = IndexOutOfRange | SliceOutOfRange | TypeAssertion

text \<open>The slice expression \<^verbatim>\<open>txt[lo:hi]\<close> on the bytes of a string.\<close>

definition substr :: "string \<Rightarrow> int \<Rightarrow> int \<Rightarrow> string" where
  "substr txt lo hi = take (nat (hi - lo)) (drop (nat lo) txt)"

definition slice :: "string \<Rightarrow> int \<times> int \<Rightarrow> panic + string" where
  "slice txt loc =
     (if 0 \<le> fst loc \<and> fst loc \<le> snd loc \<and> snd loc \<le> int (length txt)
      then Inr (substr txt (fst loc) (snd loc)) else Inl SliceOutOfRange)"

record Definition =
  Action :: Action
  Code :: bool
  Description :: string
  Extends :: string
  Level :: string
  Limit :: int
  Link :: string
  Message :: string
  Name :: string
  Scope :: string

text \<open>\<open>Max_count\<close> and \<open>Min_count\<close> are the fields \<^verbatim>\<open>Max\<close> and \<^verbatim>\<open>Min\<close> of \<^verbatim>\<open>Occurrence\<close>.\<close>

record Occurrence = Definition +
  Ignorecase :: bool
  Max_count :: int
  Min_count :: int
  Token :: string

record Substitution = Definition +
  Ignorecase :: bool
  Nonword :: bool
  Swap :: "string \<rightharpoonup> string"
  POS :: string

text \<open>
  A compiled \<^verbatim>\<open>*regexp.Regexp\<close> (github.com/jdkato/regexp), by the three methods the rules
  call: \<^verbatim>\<open>FindAllStringIndex(txt, -1)\<close> gives the \<^verbatim>\<open>[begin, end]\<close> pairs, and
  \<^verbatim>\<open>FindAllStringSubmatchIndex(txt, -1)\<close> one index slice per match.
\<close>

record Regexp =
  MatchString :: "string \<Rightarrow> bool"
  FindAllStringIndex :: "string \<Rightarrow> (int \<times> int) list"
  FindAllStringSubmatchIndex :: "string \<Rightarrow> int list list"

text \<open>
  \<^verbatim>\<open>core.FormatMessage\<close>, \<^verbatim>\<open>core.CheckPOS\<close> and \<^verbatim>\<open>core.ToSentence\<close> (core/util.go) are not
  among the sources, and \<^verbatim>\<open>strings.TrimSpace\<close> follows the Unicode tables: the rules take
  the four as parameters.
\<close>

record check_env =
  FormatMessage :: "string \<Rightarrow> string list \<Rightarrow> string"
  CheckPOS :: "int \<times> int \<Rightarrow> string \<Rightarrow> string \<Rightarrow> bool"
  ToSentence :: "string list \<Rightarrow> string \<Rightarrow> string"
  TrimSpace :: "string \<Rightarrow> string"

definition formatMessages :: "check_env \<Rightarrow> string \<Rightarrow> string \<Rightarrow> string list \<Rightarrow> string \<times> string" where
  "formatMessages E msg desc subs = (FormatMessage E msg subs, FormatMessage E desc subs)"

definition makeAlert :: "check_env \<Rightarrow> 'a Definition_scheme \<Rightarrow> int \<times> int \<Rightarrow> string \<Rightarrow> panic + Alert" where
  "makeAlert E chk loc txt =
     (case slice txt loc of
        Inl p \<Rightarrow> Inl p
      | Inr match \<Rightarrow>
          let a = \<lparr>Alert.Action = Definition.Action chk, Check = Definition.Name chk,
                   Alert.Description = [], Line = 0, Alert.Link = Definition.Link chk,
                   Alert.Message = [], Severity = Level chk, Span = loc, Match = match,
                   Hide = False\<rparr>;
              md = formatMessages E (Definition.Message chk) (Definition.Description chk) [match]
          in Inr (a\<lparr>Alert.Message := fst md, Alert.Description := snd md\<rparr>))"

section \<open>check: occurrence\<close>

definition checkOccurrence ::
  "check_env \<Rightarrow> string \<Rightarrow> Occurrence \<Rightarrow> 'm File \<Rightarrow> Regexp \<Rightarrow> panic + Alert list"
where
  "checkOccurrence E txt chk f r =
     (let alerts = [];
          locs = FindAllStringIndex r txt;
          occurrences = int (length locs)
      in if occurrences > Max_count chk \<or> occurrences < Min_count chk then
           (case locs of
              [] \<Rightarrow> Inl IndexOutOfRange
            | loc0 # _ \<Rightarrow>
                (case makeAlert E chk loc0 txt of
                   Inl p \<Rightarrow> Inl p
                 | Inr a \<Rightarrow>
                     Inr (alerts @ [a\<lparr>Alert.Message := Definition.Message chk,
                                      Alert.Description := Definition.Description chk\<rparr>])))
         else Inr alerts)"

section \<open>check: substitution\<close>

text \<open>
  The loop state of \<^verbatim>\<open>checkSubstitution\<close>: the alerts so far, \<^verbatim>\<open>pos\<close>, and the local copy
  of \<^verbatim>\<open>chk\<close>, whose \<^verbatim>\<open>Action.Params\<close> the loop body may set.
\<close>

type_synonym subst_state = "Alert list \<times> bool \<times> Substitution"

text \<open>The body run for a capture group that took part in the match (\<open>idx\<close> is even and
  at least 2, \<open>submat ! idx\<close> is not -1).\<close>

definition subst_group ::
  "check_env \<Rightarrow> string \<Rightarrow> string list \<Rightarrow> int list \<Rightarrow> nat \<Rightarrow> subst_state \<Rightarrow> panic + subst_state"
where
  "subst_group E txt repl submat idx st =
     (case st of (alerts, pos, chk) \<Rightarrow>
        if \<not> idx + 1 < length submat then Inl IndexOutOfRange
        else
          let loc = (submat ! idx, submat ! (idx + 1)) in
          if \<not> idx div 2 - 1 < length repl then Inl IndexOutOfRange
          else
            let expected = repl ! (idx div 2 - 1) in
            (case slice txt loc of
               Inl p \<Rightarrow> Inl p
             | Inr matched \<Rightarrow>
                 let observed = TrimSpace E matched in
                 if expected \<noteq> observed then
                   let pos = (if POS chk \<noteq> [] then CheckPOS E loc (POS chk) txt else pos);
                       fill = (Action.Name (Definition.Action chk) = ''replace''
                               \<and> length (Params (Definition.Action chk)) = 0);
                       chk = (if fill
                              then chk\<lparr>Definition.Action :=
                                         (Definition.Action chk)\<lparr>Params := Split expected CHR ''|''\<rparr>\<rparr>
                              else chk);
                       expected = (if fill then ToSentence E (Params (Definition.Action chk)) ''or''
                                   else expected);
                       a = \<lparr>Alert.Action = Definition.Action chk, Check = Definition.Name chk,
                            Alert.Description = [], Line = 0, Alert.Link = Definition.Link chk,
                            Alert.Message = [], Severity = Level chk, Span = loc,
                            Match = observed, Hide = pos\<rparr>;
                       md = formatMessages E (Definition.Message chk) (Definition.Description chk)
                              [expected, observed]
                   in Inr (alerts @ [a\<lparr>Alert.Message := fst md, Alert.Description := snd md\<rparr>],
                           pos, chk)
                 else Inr (alerts, pos, chk)))"

definition is_group_start :: "int list \<Rightarrow> nat \<Rightarrow> bool" where
  "is_group_start submat idx = (submat ! idx \<noteq> - 1 \<and> idx > 0 \<and> idx mod 2 = 0)"

text \<open>\<^verbatim>\<open>for idx, mat := range submat\<close>, over the indices still to visit.\<close>

fun subst_submat ::
  "check_env \<Rightarrow> string \<Rightarrow> string list \<Rightarrow> int list \<Rightarrow> nat list \<Rightarrow> subst_state \<Rightarrow> panic + subst_state"
where
  "subst_submat E txt repl submat [] st = Inr st"
| "subst_submat E txt repl submat (idx # idxs) st =
     (if is_group_start submat idx then
        (case subst_group E txt repl submat idx st of
           Inl p \<Rightarrow> Inl p
         | Inr st' \<Rightarrow> subst_submat E txt repl submat idxs st')
      else subst_submat E txt repl submat idxs st)"

text \<open>\<^verbatim>\<open>for _, submat := range r.FindAllStringSubmatchIndex(txt, -1)\<close>.\<close>

fun subst_matches ::
  "check_env \<Rightarrow> string \<Rightarrow> string list \<Rightarrow> int list list \<Rightarrow> subst_state \<Rightarrow> panic + subst_state"
where
  "subst_matches E txt repl [] st = Inr st"
| "subst_matches E txt repl (submat # submats) st =
     (case subst_submat E txt repl submat [0..<length submat] st of
        Inl p \<Rightarrow> Inl p
      | Inr st' \<Rightarrow> subst_matches E txt repl submats st')"

definition checkSubstitution ::
  "check_env \<Rightarrow> string \<Rightarrow> Substitution \<Rightarrow> 'm File \<Rightarrow> Regexp \<Rightarrow> string list \<Rightarrow> panic + Alert list"
where
  "checkSubstitution E txt chk f r repl =
     (let alerts = []; pos = False in
      if \<not> MatchString r txt then Inr alerts
      else
        (case subst_matches E txt repl (FindAllStringSubmatchIndex r txt) (alerts, pos, chk) of
           Inl p \<Rightarrow> Inl p
         | Inr st \<Rightarrow> Inr (fst st)))"

text \<open>
  The capture-group matches the loops visit: a match and the index of a group's start in it.
  \<open>observed\<close> and \<open>expected\<close> are the two strings \<^verbatim>\<open>checkSubstitution\<close> compares there.
\<close>

definition group_matches :: "Regexp \<Rightarrow> string \<Rightarrow> (int list \<times> nat) list" where
  "group_matches r txt =
     concat (map (\<lambda>submat. map (Pair submat) (filter (is_group_start submat) [0..<length submat]))
                 (FindAllStringSubmatchIndex r txt))"

definition group_loc :: "int list \<times> nat \<Rightarrow> int \<times> int" where
  "group_loc g = (fst g ! snd g, fst g ! (snd g + 1))"

definition observed :: "check_env \<Rightarrow> string \<Rightarrow> int list \<times> nat \<Rightarrow> string" where
  "observed E txt g = TrimSpace E (substr txt (fst (group_loc g)) (snd (group_loc g)))"

definition expected :: "string list \<Rightarrow> int list \<times> nat \<Rightarrow> string" where
  "expected repl g = repl ! (snd g div 2 - 1)"

section \<open>check: loading a rule manifest\<close>

text \<open>A value of type \<^verbatim>\<open>interface{}\<close> as \<^verbatim>\<open>yaml.Unmarshal\<close> stores it in the generic map.\<close>

datatype yaml =
  YNull | YBool bool | YInt int | YString string | YSeq "yaml list" | YMap "(yaml \<times> yaml) list"

type_synonym generic = "string \<rightharpoonup> yaml"

datatype rule_error =
  DecodeError string string
  | MissingExtensionPoint string
  | UnknownExtensionPoint string
  | MissingMessage string

definition extensionPoints :: "string list" where
  "extensionPoints =
     [''capitalization'', ''conditional'', ''consistency'', ''existence'', ''occurrence'',
      ''repetition'', ''substitution'', ''readability'', ''spelling'', ''sequence'']"

text \<open>\<open>None\<close> is the nil error.  The assertion \<^verbatim>\<open>point.(string)\<close> panics on any other type.\<close>

definition validateDefinition :: "generic \<Rightarrow> string \<Rightarrow> panic + rule_error option" where
  "validateDefinition generic name =
     (case generic ''extends'' of
        None \<Rightarrow> Inr (Some (MissingExtensionPoint name))
      | Some point \<Rightarrow>
          (case point of
             YString p \<Rightarrow>
               if \<not> StringInSlice p extensionPoints then Inr (Some (UnknownExtensionPoint name))
               else if generic ''message'' = None then Inr (Some (MissingMessage name))
               else Inr None
           | _ \<Rightarrow> Inl TypeAssertion))"

text \<open>
  The manager, by what \<^verbatim>\<open>addCheck\<close> touches: the registry \<^verbatim>\<open>AllChecks\<close> (of a type the
  builders alone know), \<^verbatim>\<open>Config.RuleToLevel\<close> and \<^verbatim>\<open>Scopes\<close>.
\<close>

record 'c Manager =
  AllChecks :: 'c
  RuleToLevel :: "string \<rightharpoonup> string"
  Scopes :: "string set"

text \<open>
  \<^verbatim>\<open>yaml.Unmarshal\<close> (gopkg.in/yaml.v2) and the table \<^verbatim>\<open>checkBuilders\<close> are parameters.  A
  builder works on the generic map and the manager; its returned error is dropped by
  \<^verbatim>\<open>addCheck\<close>.
\<close>

record 'c loader =
  Unmarshal :: "string \<Rightarrow> string + generic"
  checkBuilders :: "string \<rightharpoonup> (string \<Rightarrow> generic \<Rightarrow> 'c Manager \<Rightarrow> panic + generic \<times> 'c Manager)"

definition addCheck ::
  "'c loader \<Rightarrow> 'c Manager \<Rightarrow> string \<Rightarrow> string \<Rightarrow> panic + rule_error option \<times> 'c Manager"
where
  "addCheck L mgr file chkName =
     (case Unmarshal L file of
        Inl err \<Rightarrow> Inr (Some (DecodeError chkName err), mgr)
      | Inr generic \<Rightarrow>
          (case validateDefinition generic chkName of
             Inl p \<Rightarrow> Inl p
           | Inr (Some defErr) \<Rightarrow> Inr (Some defErr, mgr)
           | Inr None \<Rightarrow>
               let generic = generic(''name'' \<mapsto> YString chkName);
                   generic =
                     (case RuleToLevel mgr chkName of
                        Some level \<Rightarrow> generic(''level'' \<mapsto> YString level)
                      | None \<Rightarrow>
                          if generic ''level'' = None
                          then generic(''level'' \<mapsto> YString ''warning'') else generic);
                   generic = (if generic ''scope'' = None
                              then generic(''scope'' \<mapsto> YString ''text'') else generic)
               in (case generic ''extends'' of
                     Some (YString extends) \<Rightarrow>
                       (case (case checkBuilders L extends of
                                Some builder \<Rightarrow> builder chkName generic mgr
                              | None \<Rightarrow> Inr (generic, mgr)) of
                          Inl p \<Rightarrow> Inl p
                        | Inr (generic, mgr) \<Rightarrow>
                            (case generic ''scope'' of
                               Some (YString scope) \<Rightarrow>
                                 Inr (None,
                                      mgr\<lparr>Scopes := insert (hd (Split scope CHR ''.'')) (Scopes mgr)\<rparr>)
                             | _ \<Rightarrow> Inl TypeAssertion))
                   | _ \<Rightarrow> Inl TypeAssertion)))"

definition AddCheck ::
  "'c loader \<Rightarrow> 'c Manager \<Rightarrow> string \<Rightarrow> string \<Rightarrow> panic + rule_error option \<times> 'c Manager"
where
  "AddCheck L mgr content chkName = addCheck L mgr content chkName"

section \<open>Predicates of the statements\<close>

text \<open>
  \<open>recorded\<close>: every alert of the file has its key in the history, and no two alerts share
  a triple.  \<open>before\<close>: the order of two alerts by \<open>(Line, Span[0])\<close>.
\<close>

definition recorded :: "'m File \<Rightarrow> bool" where
  "recorded f =
     (list_all (\<lambda>a. history f (entry a) \<noteq> None) (Alerts f) \<and> distinct (map triple (Alerts f)))"

text \<open>\<open>appends\<close>: the three tests an alert passes before \<^verbatim>\<open>AddAlert\<close> appends it.\<close>

definition appends :: "'m core_helpers \<Rightarrow> 'm File \<Rightarrow> call \<Rightarrow> bool" where
  "appends H f c =
     (fst (Span (localized H f c)) > 0 \<and> \<not> Hide (localized H f c)
      \<and> history f (entry (localized H f c)) = None)"

definition before :: "Alert \<Rightarrow> Alert \<Rightarrow> bool" where
  "before a b = (Line a < Line b \<or> (Line a = Line b \<and> fst (Span a) \<le> fst (Span b)))"

text \<open>What identifies an alert of \<^verbatim>\<open>checkSubstitution\<close> and the capture-group match it reports.\<close>

definition alert_key :: "Alert \<Rightarrow> (int \<times> int) \<times> string" where
  "alert_key a = (Span a, Match a)"

definition group_key :: "check_env \<Rightarrow> string \<Rightarrow> int list \<times> nat \<Rightarrow> (int \<times> int) \<times> string" where
  "group_key E txt g = (group_loc g, observed E txt g)"

definition differs :: "check_env \<Rightarrow> string \<Rightarrow> string list \<Rightarrow> int list \<times> nat \<Rightarrow> bool" where
  "differs E txt repl g = (expected repl g \<noteq> observed E txt g)"

section \<open>Example inputs\<close>

text \<open>
  Instances of the parameters for the worked examples: the match is looked up as a
  substring of the context and its position counted from 1 (or is -1 when it is absent),
  and \<open>Substitute\<close> overwrites its first occurrence.
\<close>

fun index_from :: "string \<Rightarrow> string \<Rightarrow> int \<Rightarrow> int" where
  "index_from m [] i = (if m = [] then i else - 1)"
| "index_from m (c # cs) i = (if take (length m) (c # cs) = m then i else index_from m cs (i + 1))"

fun replace_first :: "string \<Rightarrow> char \<Rightarrow> string \<Rightarrow> string" where
  "replace_first m r [] = []"
| "replace_first m r (c # cs) =
     (if m \<noteq> [] \<and> take (length m) (c # cs) = m
      then replicate (length m) r @ drop (length m) (c # cs)
      else c # replace_first m r cs)"

definition example_helpers :: "unit core_helpers" where
  "example_helpers =
     \<lparr>initialPosition =
        (\<lambda>ctx m x. (if index_from m ctx 0 < 0 then - 1 else index_from m ctx 0 + 1, m)),
      Substitute = (\<lambda>ctx m r. (replace_first m r ctx, 0 \<le> index_from m ctx 0))\<rparr>"

text \<open>A file as \<^verbatim>\<open>NewFile\<close> leaves it: no alerts, empty comment state and history.\<close>

definition example_file :: "unit File" where
  "example_file =
     \<lparr>Alerts = [], ChkToCtx = Map.empty, Comments = Map.empty, Format = ''prose'',
      Lines = [''Use ## here''], Simple = False, history = Map.empty, matcher = ()\<rparr>"

definition alert_of :: "string \<Rightarrow> string \<Rightarrow> int \<Rightarrow> int \<times> int \<Rightarrow> bool \<Rightarrow> Alert" where
  "alert_of chk m ln sp hidden =
     \<lparr>Alert.Action = \<lparr>Action.Name = [], Params = []\<rparr>, Check = chk, Alert.Description = [],
      Line = ln, Alert.Link = [], Alert.Message = [], Severity = ''warning'', Span = sp,
      Match = m, Hide = hidden\<rparr>"

definition hash_call :: call where
  "hash_call = (alert_of ''Docs.Hash'' ''##'' 0 (4, 6) False, ''Use ## here'', ''Use ## here'', 1, 0)"

definition unsorted_file :: "unit File" where
  "unsorted_file =
     example_file\<lparr>Alerts := [alert_of ''A.B'' ''x'' 3 (1, 2) False,
                              alert_of ''A.C'' ''y'' 1 (9, 10) False,
                              alert_of ''A.B'' ''z'' 1 (4, 5) False]\<rparr>"

definition hidden_alert :: Alert where
  "hidden_alert = alert_of ''Docs.Use'' ''Use'' 0 (0, 3) True"

definition lost_alert :: Alert where
  "lost_alert = alert_of ''Docs.Lost'' ''absent'' 0 (0, 6) False"

text \<open>
  Instances of the rule parameters: \<open>FormatMessage\<close> fills each \<^verbatim>\<open>%s\<close> with the next
  argument, \<open>TrimSpace\<close> trims blanks, no part-of-speech test fails.
\<close>

fun fill_verbs :: "string \<Rightarrow> string list \<Rightarrow> string" where
  "fill_verbs [] subs = []"
| "fill_verbs [c] subs = [c]"
| "fill_verbs (c # d # cs) subs =
     (if c = CHR ''%'' \<and> d = CHR ''s'' \<and> subs \<noteq> [] then hd subs @ fill_verbs cs (tl subs)
      else c # fill_verbs (d # cs) subs)"

definition trim_blanks :: "string \<Rightarrow> string" where
  "trim_blanks s = rev (dropWhile (\<lambda>c. c = CHR '' '') (rev (dropWhile (\<lambda>c. c = CHR '' '') s)))"

definition example_env :: check_env where
  "example_env =
     \<lparr>FormatMessage = fill_verbs, CheckPOS = (\<lambda>loc pos txt. False),
      ToSentence = (\<lambda>ws conj. Join ws ('' '' @ conj @ '' '')), TrimSpace = trim_blanks\<rparr>"

text \<open>An occurrence rule that wants the token \<^verbatim>\<open>TODO\<close> at least once and at most three
  times, and its compiled pattern \<^verbatim>\<open>(?:TODO)\<close>, tabulated on the texts of the examples.\<close>

definition todo_rule :: Occurrence where
  "todo_rule =
     \<lparr>Definition.Action = \<lparr>Action.Name = [], Params = []\<rparr>, Code = False,
      Definition.Description = [], Extends = ''occurrence'', Level = ''warning'', Limit = 0,
      Definition.Link = [], Definition.Message = ''Expected between 1 and 3 TODOs.'',
      Definition.Name = ''Docs.Todo'', Scope = ''text'',
      Occurrence.Ignorecase = False, Max_count = 3, Min_count = 1, Token = ''TODO''\<rparr>"

definition todo_regexp :: Regexp where
  "todo_regexp =
     \<lparr>MatchString = (\<lambda>t. t = ''TODO TODO TODO TODO''),
      FindAllStringIndex =
        (\<lambda>t. if t = ''TODO TODO TODO TODO'' then [(0, 4), (5, 9), (10, 14), (15, 19)] else []),
      FindAllStringSubmatchIndex =
        (\<lambda>t. if t = ''TODO TODO TODO TODO'' then [[0, 4], [5, 9], [10, 14], [15, 19]] else [])\<rparr>"

text \<open>A substitution rule with one swap, \<^verbatim>\<open>smart ?phone\<close> to \<^verbatim>\<open>smartphone\<close>, and its compiled
  pattern \<^verbatim>\<open>(?m)\b(?:(smart ?phone))\b\<close>, tabulated on the texts of the examples.\<close>

definition swap_rule :: Substitution where
  "swap_rule =
     \<lparr>Definition.Action = \<lparr>Action.Name = [], Params = []\<rparr>, Code = False,
      Definition.Description = [], Extends = ''substitution'', Level = ''error'', Limit = 0,
      Definition.Link = [], Definition.Message = ''Use '' @ [CHR 0x27] @ ''%s'' @ [CHR 0x27]
         @ '' instead of '' @ [CHR 0x27] @ ''%s'' @ [CHR 0x27] @ ''.'',
      Definition.Name = ''Docs.Swap'', Scope = ''text'',
      Substitution.Ignorecase = False, Nonword = False,
      Swap = [''smart ?phone'' \<mapsto> ''smartphone''], POS = []\<rparr>"

definition swap_regexp :: Regexp where
  "swap_regexp =
     \<lparr>MatchString = (\<lambda>t. t = ''my smart phone'' \<or> t = ''my smartphone''),
      FindAllStringIndex =
        (\<lambda>t. if t = ''my smart phone'' then [(3, 14)]
             else if t = ''my smartphone'' then [(3, 13)] else []),
      FindAllStringSubmatchIndex =
        (\<lambda>t. if t = ''my smart phone'' then [[3, 14, 3, 14]]
             else if t = ''my smartphone'' then [[3, 13, 3, 13]] else [])\<rparr>"

definition swap_alert :: Alert where
  "swap_alert =
     \<lparr>Alert.Action = \<lparr>Action.Name = [], Params = []\<rparr>, Check = ''Docs.Swap'',
      Alert.Description = [], Line = 0, Alert.Link = [],
      Alert.Message = ''Use '' @ [CHR 0x27] @ ''smartphone'' @ [CHR 0x27]
         @ '' instead of '' @ [CHR 0x27] @ ''smart phone'' @ [CHR 0x27] @ ''.'',
      Severity = ''error'', Span = (3, 14), Match = ''smart phone'', Hide = False\<rparr>"

text \<open>
  A loader whose decoder is tabulated on two manifests: one whose \<^verbatim>\<open>extends\<close> value is the
  number 5, and a well-formed existence rule.  Its builder for \<^verbatim>\<open>existence\<close> registers the
  rule's name.
\<close>

definition example_loader :: "string list loader" where
  "example_loader =
     \<lparr>Unmarshal =
        (\<lambda>file.
           if file = ''extends: 5\<newline>message: found %s''
           then Inr [''extends'' \<mapsto> YInt 5, ''message'' \<mapsto> YString ''found %s'']
           else if file = ''extends: existence\<newline>message: found %s\<newline>flavour: odd\<newline>tokens: [foo]''
           then Inr [''extends'' \<mapsto> YString ''existence'', ''message'' \<mapsto> YString ''found %s'',
                     ''flavour'' \<mapsto> YString ''odd'', ''tokens'' \<mapsto> YSeq [YString ''foo'']]
           else Inl ''yaml: did not find expected key''),
      checkBuilders =
        [''existence'' \<mapsto> (\<lambda>name generic mgr. Inr (generic, mgr\<lparr>AllChecks := name # AllChecks mgr\<rparr>))]\<rparr>"

definition example_manager :: "string list Manager" where
  "example_manager = \<lparr>AllChecks = [], RuleToLevel = Map.empty, Scopes = {}\<rparr>"

section \<open>Selectors\<close>

lemma StringInSlice_iff: "StringInSlice a xs \<longleftrightarrow> a \<in> set xs"
  by (induction xs) auto

text \<open>The left-to-right lookup finds the strings exactly when they form a subsequence of
  the slice.\<close>

lemma AllStringsInSlice_subseq: "AllStringsInSlice ss xs \<longleftrightarrow> subseq ss xs"
  by (induction ss xs rule: AllStringsInSlice.induct) simp_all



text \<open>
  C8: selector containment is transitive: if \<open>A.Contains(B)\<close> and \<open>B.Contains(C)\<close> then
  \<open>A.Contains(C)\<close>.
\<close>

theorem Contains_transitive:
  assumes "Contains A B" and "Contains B C"
  shows "Contains A C"
proof -
  from assms have "subseq (Sections C) (Sections B)" and "subseq (Sections B) (Sections A)"
    by (simp_all add: Contains_def AllStringsInSlice_subseq)
  then have "subseq (Sections C) (Sections A)" by (rule subseq_order.trans)
  then show ?thesis by (simp add: Contains_def AllStringsInSlice_subseq)
qed

theorem Contains_transitive_witness:
  "Contains \<lparr>Value = ''text.comment.line.py''\<rparr> \<lparr>Value = ''text.comment.line''\<rparr>
   \<and> Contains \<lparr>Value = ''text.comment.line''\<rparr> \<lparr>Value = ''text.comment''\<rparr>
   \<and> Contains \<lparr>Value = ''text.comment.line.py''\<rparr> \<lparr>Value = ''text.comment''\<rparr>"
proof -
  have ab: "Contains \<lparr>Value = ''text.comment.line.py''\<rparr> \<lparr>Value = ''text.comment.line''\<rparr>"
    by (simp add: Contains_def Sections_def)
  have bc: "Contains \<lparr>Value = ''text.comment.line''\<rparr> \<lparr>Value = ''text.comment''\<rparr>"
    by (simp add: Contains_def Sections_def)
  from ab bc Contains_transitive [OF ab bc] show ?thesis by blast
qed

section \<open>Comment control\<close>

lemmas comment_eval = UpdateComments_def QueryComments_def lookup_bool_def
  commentControlRE_MatchString_def commentControlRE_FindStringSubmatch_def strip_prefix_def
  strip_suffix_def name_re_def is_word_char_def in_range_def byte_def dot_then_words_def

lemma strip_prefix_Some: "strip_prefix p s = Some r \<longleftrightarrow> s = p @ r"
  by (auto simp: strip_prefix_def) (metis append_take_drop_id)

lemma strip_suffix_Some: "strip_suffix p s = Some r \<longleftrightarrow> s = r @ p"
  by (auto simp: strip_suffix_def) (metis append_take_drop_id)

lemma strip_suffix_None:
  assumes "last s \<noteq> last p" and "p \<noteq> []"
  shows "strip_suffix p s = None"
proof (rule ccontr)
  assume "strip_suffix p s \<noteq> None"
  then obtain r where "strip_suffix p s = Some r" by auto
  then have "s = r @ p" by (simp add: strip_suffix_Some)
  with assms(2) have "last s = last p" by simp
  with assms(1) show False by simp
qed

lemma submatch_NO:
  assumes "name_re x"
  shows "commentControlRE_FindStringSubmatch (''vale '' @ x @ '' = NO'')
     = Some [''vale '' @ x @ '' = NO'', x, ''NO'']"
proof -
  have p: "strip_prefix ''vale '' (''vale '' @ x @ '' = NO'') = Some (x @ '' = NO'')"
    by (simp add: strip_prefix_Some)
  have y: "strip_suffix '' = YES'' (x @ '' = NO'') = None"
    by (rule strip_suffix_None) simp_all
  have n: "strip_suffix '' = NO'' (x @ '' = NO'') = Some x"
    by (simp add: strip_suffix_Some)
  show ?thesis
    unfolding commentControlRE_FindStringSubmatch_def p using assms by (simp add: y n)
qed

lemma submatch_YES:
  assumes "name_re x"
  shows "commentControlRE_FindStringSubmatch (''vale '' @ x @ '' = YES'')
     = Some [''vale '' @ x @ '' = YES'', x, ''YES'']"
proof -
  have p: "strip_prefix ''vale '' (''vale '' @ x @ '' = YES'') = Some (x @ '' = YES'')"
    by (simp add: strip_prefix_Some)
  have y: "strip_suffix '' = YES'' (x @ '' = YES'') = Some x"
    by (simp add: strip_suffix_Some)
  show ?thesis
    unfolding commentControlRE_FindStringSubmatch_def p using assms by (simp add: y)
qed

lemma directive_not_switch:
  assumes "v \<noteq> []"
  shows "''vale '' @ x @ '' = '' @ v \<noteq> ''vale off''" and "''vale '' @ x @ '' = '' @ v \<noteq> ''vale on''"
proof -
  from assms have len: "length (''vale '' @ x @ '' = '' @ v) > 8"
    by (cases v) simp_all
  show "''vale '' @ x @ '' = '' @ v \<noteq> ''vale off''"
  proof
    assume "''vale '' @ x @ '' = '' @ v = ''vale off''"
    then have "length (''vale '' @ x @ '' = '' @ v) = length ''vale off''" by (rule arg_cong)
    with len show False by simp
  qed
  show "''vale '' @ x @ '' = '' @ v \<noteq> ''vale on''"
  proof
    assume "''vale '' @ x @ '' = '' @ v = ''vale on''"
    then have "length (''vale '' @ x @ '' = '' @ v) = length ''vale on''" by (rule arg_cong)
    with len show False by simp
  qed
qed

lemma UpdateComments_NO:
  assumes "name_re x"
  shows "UpdateComments (''vale '' @ x @ '' = NO'') f = f\<lparr>Comments := (Comments f)(x \<mapsto> True)\<rparr>"
  using submatch_NO [OF assms] directive_not_switch [of "''NO''" x]
  by (simp add: UpdateComments_def commentControlRE_MatchString_def)

lemma UpdateComments_YES:
  assumes "name_re x"
  shows "UpdateComments (''vale '' @ x @ '' = YES'') f = f\<lparr>Comments := (Comments f)(x \<mapsto> False)\<rparr>"
  using submatch_YES [OF assms] directive_not_switch [of "''YES''" x]
  by (simp add: UpdateComments_def commentControlRE_MatchString_def)

text \<open>The comments the pattern matches: a name matching \<^verbatim>\<open>\w+.\w+\<close> between the prefix and
  the value.\<close>

lemma commentControlRE_MatchString_iff:
  "commentControlRE_MatchString c \<longleftrightarrow>
     (\<exists>x. name_re x \<and> (c = ''vale '' @ x @ '' = YES'' \<or> c = ''vale '' @ x @ '' = NO''))"
proof
  assume "commentControlRE_MatchString c"
  then show "\<exists>x. name_re x \<and> (c = ''vale '' @ x @ '' = YES'' \<or> c = ''vale '' @ x @ '' = NO'')"
    by (auto simp: commentControlRE_MatchString_def commentControlRE_FindStringSubmatch_def
        strip_prefix_Some strip_suffix_Some split: option.splits if_splits)
next
  assume "\<exists>x. name_re x \<and> (c = ''vale '' @ x @ '' = YES'' \<or> c = ''vale '' @ x @ '' = NO'')"
  then show "commentControlRE_MatchString c"
    using submatch_NO submatch_YES by (auto simp: commentControlRE_MatchString_def)
qed

lemma no_match_of_other_name:
  assumes "\<not> name_re x" and "v = ''YES'' \<or> v = ''NO''"
  shows "\<not> commentControlRE_MatchString (''vale '' @ x @ '' = '' @ v)"
proof
  assume "commentControlRE_MatchString (''vale '' @ x @ '' = '' @ v)"
  then obtain y where y: "name_re y"
    and c: "''vale '' @ x @ '' = '' @ v = ''vale '' @ y @ '' = YES''
            \<or> ''vale '' @ x @ '' = '' @ v = ''vale '' @ y @ '' = NO''"
    by (auto simp: commentControlRE_MatchString_iff)
  from c assms(2) have "x @ '' = YES'' = y @ '' = YES'' \<or> x @ '' = NO'' = y @ '' = NO''
      \<or> last (x @ '' = YES'') = last (y @ '' = NO'') \<or> last (x @ '' = NO'') = last (y @ '' = YES'')"
    by auto
  then have "x = y" by auto
  with y assms(1) show False by simp
qed

lemma UpdateComments_other_name:
  assumes "\<not> name_re x" and "v = ''YES'' \<or> v = ''NO''"
  shows "UpdateComments (''vale '' @ x @ '' = '' @ v) f = f"
proof -
  from assms(2) have "v \<noteq> []" by auto
  then have "''vale '' @ x @ '' = '' @ v \<noteq> ''vale off''" and "''vale '' @ x @ '' = '' @ v \<noteq> ''vale on''"
    by (rule directive_not_switch)+
  with no_match_of_other_name [OF assms] show ?thesis
    by (simp add: UpdateComments_def)
qed

text \<open>
  C4, as the claim states it, fails in two ways: after \<^verbatim>\<open>vale off\<close>, the directive
  \<^verbatim>\<open>vale Rule.Name = YES\<close> does not make \<open>QueryComments\<close> report the rule enabled; and the
  directive \<^verbatim>\<open>vale write-good.Weasel = NO\<close>, whose rule name the pattern
  \<^verbatim>\<open>\w+.\w+\<close> does not match, does not make \<open>QueryComments\<close> report that rule suppressed.
\<close>

theorem QueryComments_YES_while_off:
  "QueryComments
     (UpdateComments ''vale Rule.Name = YES'' (UpdateComments ''vale off'' example_file))
     ''Rule.Name'' = True
   \<and> QueryComments (UpdateComments ''vale write-good.Weasel = NO'' example_file)
       ''write-good.Weasel'' = False"
  by (simp add: comment_eval example_file_def)

text \<open>
  C4 (amended): \<open>UpdateComments("vale off")\<close> sets the file's global suppression flag and
  \<open>UpdateComments("vale on")\<close> clears it.  For a rule name that the group \<^verbatim>\<open>\w+.\w+\<close> of
  \<^verbatim>\<open>commentControlRE\<close> matches (word characters, any one character, word characters: such as
  \<^verbatim>\<open>Rule.Name\<close>, and unlike \<^verbatim>\<open>write-good.Weasel\<close>): after
  \<open>UpdateComments("vale Rule.Name = NO")\<close>, \<open>QueryComments("Rule.Name")\<close> reports the rule
  suppressed (true), and after \<open>"vale Rule.Name = YES"\<close> it reports the rule enabled (false)
  provided the global suppression flag is not set.  A directive with any other rule name
  leaves the comment state unchanged, and so does every comment string that is neither
  \<^verbatim>\<open>vale off\<close>, \<^verbatim>\<open>vale on\<close> nor matched by \<^verbatim>\<open>commentControlRE\<close>.
\<close>

theorem UpdateComments_directives:
  "Comments (UpdateComments ''vale off'' f) ''off'' = Some True
   \<and> Comments (UpdateComments ''vale on'' f) ''off'' = Some False
   \<and> (name_re x \<longrightarrow> QueryComments (UpdateComments (''vale '' @ x @ '' = NO'') f) x)
   \<and> (name_re x \<longrightarrow> \<not> lookup_bool (Comments f) ''off'' \<longrightarrow>
         \<not> QueryComments (UpdateComments (''vale '' @ x @ '' = YES'') f) x)
   \<and> (\<not> name_re x \<longrightarrow>
         UpdateComments (''vale '' @ x @ '' = NO'') f = f
         \<and> UpdateComments (''vale '' @ x @ '' = YES'') f = f)
   \<and> (c \<noteq> ''vale off'' \<longrightarrow> c \<noteq> ''vale on'' \<longrightarrow> \<not> commentControlRE_MatchString c \<longrightarrow>
         UpdateComments c f = f)"
proof -
  have 1: "Comments (UpdateComments ''vale off'' f) ''off'' = Some True"
    by (simp add: UpdateComments_def)
  have 2: "Comments (UpdateComments ''vale on'' f) ''off'' = Some False"
    by (simp add: UpdateComments_def)
  have 3: "name_re x \<longrightarrow> QueryComments (UpdateComments (''vale '' @ x @ '' = NO'') f) x"
    using UpdateComments_NO [of x f] by (simp add: QueryComments_def lookup_bool_def)
  have 4: "name_re x \<longrightarrow> \<not> lookup_bool (Comments f) ''off'' \<longrightarrow>
         \<not> QueryComments (UpdateComments (''vale '' @ x @ '' = YES'') f) x"
    using UpdateComments_YES [of x f] by (simp add: QueryComments_def lookup_bool_def)
  have 5: "\<not> name_re x \<longrightarrow>
         UpdateComments (''vale '' @ x @ '' = NO'') f = f
         \<and> UpdateComments (''vale '' @ x @ '' = YES'') f = f"
    using UpdateComments_other_name [of x "''NO''" f] UpdateComments_other_name [of x "''YES''" f]
    by simp
  have 6: "c \<noteq> ''vale off'' \<longrightarrow> c \<noteq> ''vale on'' \<longrightarrow> \<not> commentControlRE_MatchString c \<longrightarrow>
         UpdateComments c f = f"
    by (simp add: UpdateComments_def)
  from 1 2 3 4 5 6 show ?thesis by blast
qed

theorem UpdateComments_directives_witness:
  "name_re ''Rule.Name''
   \<and> \<not> lookup_bool (Comments example_file) ''off''
   \<and> \<not> commentControlRE_MatchString ''vale of''
   \<and> Comments (UpdateComments ''vale off'' example_file) ''off'' = Some True
   \<and> Comments (UpdateComments ''vale on'' example_file) ''off'' = Some False
   \<and> QueryComments (UpdateComments ''vale Rule.Name = NO'' example_file) ''Rule.Name''
   \<and> \<not> QueryComments (UpdateComments ''vale Rule.Name = YES'' example_file) ''Rule.Name''
   \<and> UpdateComments ''vale of'' example_file = example_file
   \<and> \<not> name_re ''write-good.Weasel''
   \<and> UpdateComments ''vale write-good.Weasel = NO'' example_file = example_file
   \<and> UpdateComments ''vale write-good.Weasel = YES'' example_file = example_file"
proof -
  have n: "name_re ''Rule.Name''"
    by (simp add: comment_eval)
  have o: "\<not> lookup_bool (Comments example_file) ''off''"
    by (simp add: lookup_bool_def example_file_def)
  have m: "\<not> commentControlRE_MatchString ''vale of''"
    by (simp add: comment_eval)
  have w: "\<not> name_re ''write-good.Weasel''"
    by (simp add: comment_eval)
  from n o m UpdateComments_directives [of example_file "''Rule.Name''" "''vale of''"]
  have first: "Comments (UpdateComments ''vale off'' example_file) ''off'' = Some True
   \<and> Comments (UpdateComments ''vale on'' example_file) ''off'' = Some False
   \<and> QueryComments (UpdateComments ''vale Rule.Name = NO'' example_file) ''Rule.Name''
   \<and> \<not> QueryComments (UpdateComments ''vale Rule.Name = YES'' example_file) ''Rule.Name''
   \<and> UpdateComments ''vale of'' example_file = example_file"
    by simp
  from w UpdateComments_directives [of example_file "''write-good.Weasel''" "''vale of''"]
  have second: "UpdateComments ''vale write-good.Weasel = NO'' example_file = example_file
   \<and> UpdateComments ''vale write-good.Weasel = YES'' example_file = example_file"
    by simp
  from n o m w first second show ?thesis by blast
qed

text \<open>
  C9: while the global off flag is set (\<open>Comments["off"] == true\<close>), \<open>QueryComments\<close> returns
  true (suppressed) for every check name, also for a check that a directive
  \<^verbatim>\<open>vale Check = YES\<close> has recorded as enabled.
\<close>

theorem QueryComments_off_overrides:
  assumes "Comments f ''off'' = Some True"
  shows "QueryComments f check"
  using assms by (simp add: QueryComments_def lookup_bool_def)

theorem QueryComments_off_overrides_witness:
  "Comments (UpdateComments ''vale Vale.Spelling = YES'' (UpdateComments ''vale off'' example_file))
     ''off'' = Some True
   \<and> Comments (UpdateComments ''vale Vale.Spelling = YES'' (UpdateComments ''vale off'' example_file))
       ''Vale.Spelling'' = Some False
   \<and> QueryComments
       (UpdateComments ''vale Vale.Spelling = YES'' (UpdateComments ''vale off'' example_file))
       ''Vale.Spelling''"
proof -
  have flag: "Comments (UpdateComments ''vale Vale.Spelling = YES''
      (UpdateComments ''vale off'' example_file)) ''off'' = Some True"
    by (simp add: comment_eval example_file_def)
  have rule: "Comments (UpdateComments ''vale Vale.Spelling = YES''
      (UpdateComments ''vale off'' example_file)) ''Vale.Spelling'' = Some False"
    by (simp add: comment_eval example_file_def)
  from flag rule QueryComments_off_overrides [OF flag, of "''Vale.Spelling''"]
  show ?thesis by blast
qed

section \<open>Recording alerts\<close>

lemma Alerts_AddAlert_call:
  "Alerts (AddAlert_call H f c) =
     (if appends H f c
      then Alerts f @ [localized H f c] else Alerts f)"
  by (cases c) (simp add: AddAlert_call_def AddAlert_def localized_def appends_def Let_def)

lemma history_AddAlert_call:
  "history (AddAlert_call H f c) =
     (if appends H f c
      then (history f)(entry (localized H f c) \<mapsto> 1) else history f)"
  by (cases c) (simp add: AddAlert_call_def AddAlert_def localized_def appends_def Let_def)

lemma Hide_localized: "Hide (localized H f (a, ctx, txt, lines, pad)) = Hide a"
  by (simp add: localized_def Let_def)

text \<open>
  C5: \<open>AddAlert\<close> never appends an alert whose \<open>Hide\<close> flag is true, and never appends an
  alert whose localized span start \<open>Span[0]\<close> is not positive; in both cases the file's alert
  list is what it was before the call.
\<close>

theorem AddAlert_drops_hidden_or_unplaced:
  assumes "Hide a \<or> fst (Span (localized H f (a, ctx, txt, lines, pad))) \<le> 0"
  shows "Alerts (AddAlert H f a ctx txt lines pad) = Alerts f"
proof -
  have "Alerts (AddAlert H f a ctx txt lines pad) = Alerts (AddAlert_call H f (a, ctx, txt, lines, pad))"
    by (simp add: AddAlert_call_def)
  also from assms have "\<dots> = Alerts f"
    by (auto simp: Alerts_AddAlert_call appends_def Hide_localized)
  finally show ?thesis .
qed

theorem AddAlert_drops_hidden_or_unplaced_witness:
  "Hide hidden_alert
   \<and> 0 < fst (Span (localized example_helpers (AddAlerts example_helpers example_file [hash_call])
                      (hidden_alert, ''Use ## here'', ''Use ## here'', 1, 0)))
   \<and> Alerts (AddAlert example_helpers (AddAlerts example_helpers example_file [hash_call])
                hidden_alert ''Use ## here'' ''Use ## here'' 1 0)
       = Alerts (AddAlerts example_helpers example_file [hash_call])
   \<and> \<not> Hide lost_alert
   \<and> fst (Span (localized example_helpers (AddAlerts example_helpers example_file [hash_call])
                  (lost_alert, ''Use ## here'', ''Use ## here'', 1, 0))) \<le> 0
   \<and> Alerts (AddAlert example_helpers (AddAlerts example_helpers example_file [hash_call])
                lost_alert ''Use ## here'' ''Use ## here'' 1 0)
       = Alerts (AddAlerts example_helpers example_file [hash_call])
   \<and> length (Alerts (AddAlerts example_helpers example_file [hash_call])) = 1"
proof -
  have h: "Hide hidden_alert"
    by code_simp
  have hp: "0 < fst (Span (localized example_helpers (AddAlerts example_helpers example_file [hash_call])
                      (hidden_alert, ''Use ## here'', ''Use ## here'', 1, 0)))"
    by code_simp
  have l: "\<not> Hide lost_alert"
    by code_simp
  have lp: "fst (Span (localized example_helpers (AddAlerts example_helpers example_file [hash_call])
                  (lost_alert, ''Use ## here'', ''Use ## here'', 1, 0))) \<le> 0"
    by code_simp
  have n: "length (Alerts (AddAlerts example_helpers example_file [hash_call])) = 1"
    by code_simp
  from h have 1: "Alerts (AddAlert example_helpers (AddAlerts example_helpers example_file [hash_call])
                hidden_alert ''Use ## here'' ''Use ## here'' 1 0)
       = Alerts (AddAlerts example_helpers example_file [hash_call])"
    by (intro AddAlert_drops_hidden_or_unplaced disjI1)
  from lp have 2: "Alerts (AddAlert example_helpers (AddAlerts example_helpers example_file [hash_call])
                lost_alert ''Use ## here'' ''Use ## here'' 1 0)
       = Alerts (AddAlerts example_helpers example_file [hash_call])"
    by (intro AddAlert_drops_hidden_or_unplaced disjI2)
  from h hp 1 l lp 2 n show ?thesis by blast
qed

text \<open>
  The invariant behind the duplicate check: every recorded alert has its key in the history,
  and the recorded triples differ pairwise.
\<close>

lemma entry_triple: "triple a = triple b \<Longrightarrow> entry a = entry b"
  by (simp add: triple_def entry_def)

lemma recorded_fresh:
  assumes "recorded f" and "history f (entry a) = None"
  shows "triple a \<notin> triple ` set (Alerts f)"
proof
  assume "triple a \<in> triple ` set (Alerts f)"
  then obtain b where b: "b \<in> set (Alerts f)" "triple a = triple b" by auto
  from b(2) have "entry a = entry b" by (rule entry_triple)
  moreover from assms(1) b(1) have "history f (entry b) \<noteq> None"
    by (simp add: recorded_def list_all_iff)
  ultimately show False using assms(2) by simp
qed

lemma recorded_AddAlert_call:
  assumes "recorded f"
  shows "recorded (AddAlert_call H f c)"
proof (cases "appends H f c")
  case True
  then have "history f (entry (localized H f c)) = None" by (simp add: appends_def)
  with assms have "triple (localized H f c) \<notin> triple ` set (Alerts f)"
    by (rule recorded_fresh)
  with assms True show ?thesis
    by (simp add: recorded_def Alerts_AddAlert_call history_AddAlert_call list_all_iff)
next
  case False
  with assms show ?thesis
    by (simp add: recorded_def Alerts_AddAlert_call history_AddAlert_call)
qed

lemma recorded_AddAlerts: "recorded f \<Longrightarrow> recorded (AddAlerts H f cs)"
  unfolding AddAlerts_def
  by (induction cs arbitrary: f) (simp_all add: recorded_AddAlert_call)

lemma recorded_new: "Alerts f = [] \<Longrightarrow> recorded f"
  by (simp add: recorded_def)

lemma recorded_repeat:
  assumes "recorded f" and "triple (localized H f c) \<in> triple ` set (Alerts f)"
  shows "Alerts (AddAlert_call H f c) = Alerts f"
proof -
  from assms have "history f (entry (localized H f c)) \<noteq> None"
    using recorded_fresh by blast
  then show ?thesis by (simp add: Alerts_AddAlert_call appends_def)
qed

text \<open>
  C3: starting from a file without alerts, as \<open>NewFile\<close> creates it, after every sequence of
  \<open>AddAlert\<close> calls no two alerts in \<open>File.Alerts\<close> share the same \<open>(Line, Span[0], Check)\<close>
  triple; a later \<open>AddAlert\<close> whose localized line, span start and check name repeat a
  recorded entry leaves \<open>File.Alerts\<close> unchanged.
\<close>

theorem AddAlerts_no_repeated_triple:
  assumes "Alerts f = []"
  shows "distinct (map triple (Alerts (AddAlerts H f cs)))
     \<and> (triple (localized H (AddAlerts H f cs) c) \<in> triple ` set (Alerts (AddAlerts H f cs))
        \<longrightarrow> Alerts (AddAlert_call H (AddAlerts H f cs) c) = Alerts (AddAlerts H f cs))"
proof -
  from assms have r: "recorded (AddAlerts H f cs)"
    by (simp add: recorded_new recorded_AddAlerts)
  then have "distinct (map triple (Alerts (AddAlerts H f cs)))"
    by (simp add: recorded_def)
  moreover have "triple (localized H (AddAlerts H f cs) c) \<in> triple ` set (Alerts (AddAlerts H f cs))
        \<longrightarrow> Alerts (AddAlert_call H (AddAlerts H f cs) c) = Alerts (AddAlerts H f cs)"
    using recorded_repeat [OF r] by blast
  ultimately show ?thesis by blast
qed

theorem AddAlerts_no_repeated_triple_witness:
  "Alerts example_file = []
   \<and> Alerts (AddAlerts example_helpers example_file [hash_call])
       = [alert_of ''Docs.Hash'' ''##'' 1 (5, 6) False]
   \<and> distinct (map triple (Alerts (AddAlerts example_helpers example_file [hash_call])))
   \<and> triple (localized example_helpers (AddAlerts example_helpers example_file [hash_call]) hash_call)
       \<in> triple ` set (Alerts (AddAlerts example_helpers example_file [hash_call]))
   \<and> Alerts (AddAlert_call example_helpers (AddAlerts example_helpers example_file [hash_call]) hash_call)
       = Alerts (AddAlerts example_helpers example_file [hash_call])"
proof -
  have e: "Alerts example_file = []"
    by (simp add: example_file_def)
  have a: "Alerts (AddAlerts example_helpers example_file [hash_call])
       = [alert_of ''Docs.Hash'' ''##'' 1 (5, 6) False]"
    by code_simp
  have t: "triple (localized example_helpers (AddAlerts example_helpers example_file [hash_call]) hash_call)
       \<in> triple ` set (Alerts (AddAlerts example_helpers example_file [hash_call]))"
    by code_simp
  from e a t AddAlerts_no_repeated_triple [OF e, of example_helpers "[hash_call]" hash_call]
  show ?thesis by blast
qed

section \<open>Sorting alerts\<close>

lemma mset_sink: "mset (sink lt x ys) = add_mset x (mset ys)"
  by (induction ys) auto

lemma set_sink: "set (sink lt x ys) = insert x (set ys)"
  by (induction ys) auto

lemma mset_insertionSort: "mset (insertionSort lt done xs) = mset done + mset xs"
  by (induction xs arbitrary: "done") (auto simp: mset_sink)

lemma before_trans: "before a b \<Longrightarrow> before b c \<Longrightarrow> before a c"
  by (auto simp: before_def)

lemma not_Less_before: "\<not> Less x y \<Longrightarrow> before y x"
  by (auto simp: Less_def before_def split: if_splits)

lemma Less_before: "Less x y \<Longrightarrow> before x y"
  by (auto simp: Less_def before_def split: if_splits)

lemma ordered_of_no_inversion:
  assumes "sorted_wrt (\<lambda>a b. \<not> Less b a) ys"
  shows "sorted_wrt before ys"
  using assms by (rule sorted_wrt_mono_rel [rotated]) (simp add: not_Less_before)

lemma sorted_sink:
  assumes "sorted_wrt (\<lambda>a b. before b a) ys"
  shows "sorted_wrt (\<lambda>a b. before b a) (sink Less x ys)"
  using assms
proof (induction ys)
  case Nil
  then show ?case by simp
next
  case (Cons y ys)
  show ?case
  proof (cases "Less x y")
    case True
    with Cons show ?thesis
      by (auto simp: set_sink Less_before)
  next
    case False
    then have "before y x" by (rule not_Less_before)
    with Cons.prems False show ?thesis
      by (auto intro: before_trans)
  qed
qed

lemma sorted_insertionSort:
  "sorted_wrt (\<lambda>a b. before b a) done \<Longrightarrow> sorted_wrt before (insertionSort Less done xs)"
proof (induction xs arbitrary: "done")
  case Nil
  then show ?case by (simp add: sorted_wrt_rev)
next
  case (Cons x xs)
  then show ?case by (simp add: sorted_sink)
qed

text \<open>
  C7: \<open>SortedAlerts\<close> returns the file's alerts ordered by \<open>(Line, Span[0])\<close>: for any two
  positions \<open>i < j\<close> in the returned slice, either \<open>Alerts[i].Line < Alerts[j].Line\<close>, or the
  lines are equal and \<open>Alerts[i].Span[0] <= Alerts[j].Span[0]\<close>; the returned multiset of
  alerts equals the multiset accumulated in \<open>File.Alerts\<close>.
\<close>

theorem SortedAlerts_ordered_by_position:
  "(\<forall>i j. i < j \<longrightarrow> j < length (snd (SortedAlerts f)) \<longrightarrow>
       (Line (snd (SortedAlerts f) ! i) < Line (snd (SortedAlerts f) ! j)
        \<or> (Line (snd (SortedAlerts f) ! i) = Line (snd (SortedAlerts f) ! j)
           \<and> fst (Span (snd (SortedAlerts f) ! i)) \<le> fst (Span (snd (SortedAlerts f) ! j)))))
   \<and> mset (snd (SortedAlerts f)) = mset (Alerts f)
   \<and> Alerts (fst (SortedAlerts f)) = snd (SortedAlerts f)"
proof -
  have "sorted_wrt before (Sort Less (Alerts f))"
    unfolding Sort_def by (rule sorted_insertionSort) simp
  then have "\<forall>i j. i < j \<longrightarrow> j < length (Sort Less (Alerts f)) \<longrightarrow>
      before (Sort Less (Alerts f) ! i) (Sort Less (Alerts f) ! j)"
    by (simp add: sorted_wrt_iff_nth_less)
  moreover have "mset (Sort Less (Alerts f)) = mset (Alerts f)"
    by (simp add: Sort_def mset_insertionSort)
  ultimately show ?thesis
    by (simp add: SortedAlerts_def Let_def before_def)
qed

theorem SortedAlerts_ordered_by_position_witness:
  "snd (SortedAlerts unsorted_file)
     = [alert_of ''A.B'' ''z'' 1 (4, 5) False, alert_of ''A.C'' ''y'' 1 (9, 10) False,
        alert_of ''A.B'' ''x'' 3 (1, 2) False]
   \<and> Line (snd (SortedAlerts unsorted_file) ! 0) = Line (snd (SortedAlerts unsorted_file) ! 1)
   \<and> fst (Span (snd (SortedAlerts unsorted_file) ! 0)) \<le> fst (Span (snd (SortedAlerts unsorted_file) ! 1))
   \<and> Line (snd (SortedAlerts unsorted_file) ! 1) < Line (snd (SortedAlerts unsorted_file) ! 2)
   \<and> mset (snd (SortedAlerts unsorted_file)) = mset (Alerts unsorted_file)"
proof -
  have s: "snd (SortedAlerts unsorted_file)
     = [alert_of ''A.B'' ''z'' 1 (4, 5) False, alert_of ''A.C'' ''y'' 1 (9, 10) False,
        alert_of ''A.B'' ''x'' 3 (1, 2) False]"
    by code_simp
  have m: "mset (snd (SortedAlerts unsorted_file)) = mset (Alerts unsorted_file)"
    using SortedAlerts_ordered_by_position [of unsorted_file] by blast
  have l: "Line (snd (SortedAlerts unsorted_file) ! 0) = Line (snd (SortedAlerts unsorted_file) ! 1)"
    "fst (Span (snd (SortedAlerts unsorted_file) ! 0)) \<le> fst (Span (snd (SortedAlerts unsorted_file) ! 1))"
    "Line (snd (SortedAlerts unsorted_file) ! 1) < Line (snd (SortedAlerts unsorted_file) ! 2)"
    unfolding s by (simp_all add: alert_of_def)
  from s m l show ?thesis by blast
qed

section \<open>The occurrence rule\<close>

text \<open>With at least one match in range, \<open>checkOccurrence\<close> returns one alert at the first
  match when the count is outside the bounds, and none otherwise.\<close>

lemma checkOccurrence_within_bounds:
  assumes "\<not> (int (length (FindAllStringIndex r txt)) > Max_count chk
              \<or> int (length (FindAllStringIndex r txt)) < Min_count chk)"
  shows "checkOccurrence E txt chk f r = Inr []"
  using assms by (simp add: checkOccurrence_def Let_def)

lemma checkOccurrence_with_match:
  assumes "FindAllStringIndex r txt = loc # locs" and "slice txt loc = Inr m"
    and "int (length (loc # locs)) > Max_count chk \<or> int (length (loc # locs)) < Min_count chk"
  shows "\<exists>a. checkOccurrence E txt chk f r = Inr [a] \<and> Span a = loc \<and> Match a = m
     \<and> Alert.Message a = Definition.Message chk"
  using assms by (auto simp: checkOccurrence_def makeAlert_def Let_def)

lemma checkOccurrence_without_match:
  assumes "FindAllStringIndex r txt = []" and "0 > Max_count chk \<or> 0 < Min_count chk"
  shows "checkOccurrence E txt chk f r = Inl IndexOutOfRange"
  using assms by (auto simp: checkOccurrence_def Let_def)

text \<open>
  C1: \<open>checkOccurrence\<close> is to return exactly one alert when the number of matches is
  greater than \<open>max\<close> or less than \<open>min\<close>, also for a text with zero matches when
  \<open>min > 0\<close>.  The code does not: on a text without a match of the token, with \<open>min = 1\<close>,
  the count 0 is below \<open>min\<close> and \<open>checkOccurrence\<close> indexes \<^verbatim>\<open>locs[0]\<close> of the empty slice.
  It panics and returns no alert.
\<close>

theorem checkOccurrence_panics_without_match:
  "FindAllStringIndex todo_regexp ''Use ## here'' = []
   \<and> Min_count todo_rule = 1
   \<and> checkOccurrence example_env ''Use ## here'' todo_rule example_file todo_regexp
       = Inl IndexOutOfRange"
  by (simp add: checkOccurrence_def todo_regexp_def todo_rule_def)

section \<open>Loading a manifest\<close>

lemma validateDefinition_keys:
  assumes "g ''extends'' = g' ''extends''" and "g ''message'' = g' ''message''"
  shows "validateDefinition g name = validateDefinition g' name"
  unfolding validateDefinition_def assms ..

lemma validateDefinition_error_iff:
  assumes "validateDefinition g name = Inr err"
  shows "err \<noteq> None \<longleftrightarrow>
     g ''extends'' = None \<or> (\<exists>p. g ''extends'' = Some (YString p) \<and> p \<notin> set extensionPoints)
     \<or> g ''message'' = None"
  using assms
  by (auto simp: validateDefinition_def StringInSlice_iff split: option.splits yaml.splits if_splits)

text \<open>When \<open>addCheck\<close> returns, it returns an error exactly in the four cases of C6.\<close>

lemma addCheck_error_iff:
  assumes "addCheck L mgr file chkName = Inr (err, mgr')"
  shows "err \<noteq> None \<longleftrightarrow>
     (\<exists>e. Unmarshal L file = Inl e)
     \<or> (\<exists>g. Unmarshal L file = Inr g
           \<and> (g ''extends'' = None
               \<or> (\<exists>p. g ''extends'' = Some (YString p) \<and> p \<notin> set extensionPoints)
               \<or> g ''message'' = None))"
proof (cases "Unmarshal L file")
  case (Inl e)
  with assms show ?thesis by (auto simp: addCheck_def)
next
  case (Inr g)
  show ?thesis
  proof (cases "validateDefinition g chkName")
    case (Inl p)
    with Inr assms show ?thesis by (simp add: addCheck_def)
  next
    case v: (Inr verr)
    have iff: "verr \<noteq> None \<longleftrightarrow>
       g ''extends'' = None \<or> (\<exists>p. g ''extends'' = Some (YString p) \<and> p \<notin> set extensionPoints)
       \<or> g ''message'' = None"
      using v by (rule validateDefinition_error_iff)
    show ?thesis
    proof (cases verr)
      case None
      with Inr v assms have "err = None"
        by (auto simp: addCheck_def Let_def split: option.splits yaml.splits sum.splits prod.splits)
      with None iff Inr show ?thesis by simp
    next
      case (Some defErr)
      with Inr v assms have "err = Some defErr"
        by (simp add: addCheck_def)
      with Some iff Inr show ?thesis by simp
    qed
  qed
qed

lemma addCheck_extends_not_string:
  assumes "Unmarshal L file = Inr g" and "g ''extends'' = Some v" and "\<forall>p. v \<noteq> YString p"
  shows "addCheck L mgr file chkName = Inl TypeAssertion"
  using assms by (cases v) (simp_all add: addCheck_def validateDefinition_def)

text \<open>
  C6: \<open>addCheck\<close> and \<open>AddCheck\<close> are to return an error when the \<^verbatim>\<open>extends\<close> value is not
  one of the ten extension-point names.  The code does not when the value is not a string:
  for the number 5 the assertion \<^verbatim>\<open>point.(string)\<close> panics, and no error is returned.
\<close>

theorem addCheck_panics_on_non_string_extends:
  "Unmarshal example_loader ''extends: 5\<newline>message: found %s''
     = Inr [''extends'' \<mapsto> YInt 5, ''message'' \<mapsto> YString ''found %s'']
   \<and> addCheck example_loader example_manager ''extends: 5\<newline>message: found %s'' ''Docs.Five''
       = Inl TypeAssertion
   \<and> AddCheck example_loader example_manager ''extends: 5\<newline>message: found %s'' ''Docs.Five''
       = Inl TypeAssertion"
  by (simp add: AddCheck_def addCheck_def validateDefinition_def example_loader_def)

text \<open>A well-formed manifest with a key no rule knows is accepted.\<close>

lemma addCheck_tolerates_unknown_key:
  "fst (projr (addCheck example_loader example_manager
       ''extends: existence\<newline>message: found %s\<newline>flavour: odd\<newline>tokens: [foo]'' ''Docs.Foo'')) = None"
  by (simp add: addCheck_def validateDefinition_def example_loader_def extensionPoints_def
      example_manager_def)

section \<open>The substitution rule\<close>

lemma slice_Inr: "slice txt loc = Inr m \<Longrightarrow> m = substr txt (fst loc) (snd loc)"
  by (simp add: slice_def split: if_splits)

lemma subst_group_alerts:
  assumes "subst_group E txt repl submat idx st = Inr st'"
  shows "map alert_key (fst st') =
     map alert_key (fst st)
     @ (if differs E txt repl (submat, idx) then [group_key E txt (submat, idx)] else [])"
proof -
  obtain alerts pos chk where st: "st = (alerts, pos, chk)" by (cases st)
  from assms st have i: "idx + 1 < length submat"
    by (auto simp: subst_group_def split: if_splits)
  from assms st i have k: "idx div 2 - 1 < length repl"
    by (auto simp: subst_group_def Let_def split: if_splits)
  from assms st i k obtain m where m: "slice txt (submat ! idx, submat ! (idx + 1)) = Inr m"
    by (cases "slice txt (submat ! idx, submat ! (idx + 1))") (auto simp: subst_group_def Let_def)
  then have ms: "m = substr txt (submat ! idx) (submat ! (idx + 1))"
    by (auto dest: slice_Inr)
  show ?thesis
  proof (cases "repl ! (idx div 2 - 1) = TrimSpace E m")
    case True
    with assms st i k m have "st' = st"
      by (simp add: subst_group_def Let_def)
    with True ms show ?thesis
      by (simp add: differs_def expected_def observed_def group_loc_def)
  next
    case False
    with assms st i k m obtain a pos' chk'
      where "st' = (alerts @ [a], pos', chk')"
        and "Span a = (submat ! idx, submat ! (idx + 1))" and "Match a = TrimSpace E m"
      by (auto simp: subst_group_def Let_def)
    with False ms st show ?thesis
      by (simp add: differs_def expected_def observed_def group_loc_def alert_key_def group_key_def)
  qed
qed

lemma subst_submat_alerts:
  assumes "subst_submat E txt repl submat idxs st = Inr st'"
  shows "map alert_key (fst st') =
     map alert_key (fst st)
     @ map (group_key E txt)
         (filter (differs E txt repl) (map (Pair submat) (filter (is_group_start submat) idxs)))"
  using assms
proof (induction idxs arbitrary: st)
  case Nil
  then show ?case by simp
next
  case (Cons idx idxs)
  show ?case
  proof (cases "is_group_start submat idx")
    case False
    with Cons show ?thesis by simp
  next
    case True
    with Cons.prems obtain st1 where g: "subst_group E txt repl submat idx st = Inr st1"
      and rest: "subst_submat E txt repl submat idxs st1 = Inr st'"
      by (auto split: sum.splits)
    from Cons.IH [OF rest] subst_group_alerts [OF g] True show ?thesis by simp
  qed
qed

lemma subst_matches_alerts:
  assumes "subst_matches E txt repl submats st = Inr st'"
  shows "map alert_key (fst st') =
     map alert_key (fst st)
     @ map (group_key E txt)
         (filter (differs E txt repl)
            (concat (map (\<lambda>submat. map (Pair submat)
                                     (filter (is_group_start submat) [0..<length submat]))
                         submats)))"
  using assms
proof (induction submats arbitrary: st)
  case Nil
  then show ?case by simp
next
  case (Cons submat submats)
  from Cons.prems obtain st1
    where one: "subst_submat E txt repl submat [0..<length submat] st = Inr st1"
      and rest: "subst_matches E txt repl submats st1 = Inr st'"
    by (auto split: sum.splits)
  from Cons.IH [OF rest] subst_submat_alerts [OF one] show ?case by simp
qed

text \<open>On a text the pattern matches, the alerts are the capture-group matches whose trimmed
  text differs from the replacement, one alert each, in the order of the matches.\<close>

lemma checkSubstitution_alerts:
  assumes "checkSubstitution E txt chk f r repl = Inr alerts" and "MatchString r txt"
  shows "map alert_key alerts
     = map (group_key E txt) (filter (differs E txt repl) (group_matches r txt))"
proof -
  from assms obtain st
    where "subst_matches E txt repl (FindAllStringSubmatchIndex r txt) ([], False, chk) = Inr st"
      and "alerts = fst st"
    by (auto simp: checkSubstitution_def split: sum.splits)
  with subst_matches_alerts [of E "txt" repl "FindAllStringSubmatchIndex r txt" "([], False, chk)" st]
  show ?thesis by (simp add: group_matches_def)
qed

lemma checkSubstitution_no_match:
  assumes "checkSubstitution E txt chk f r repl = Inr alerts" and "\<not> MatchString r txt"
  shows "alerts = []"
  using assms by (simp add: checkSubstitution_def)

text \<open>
  C10: \<open>checkSubstitution\<close> emits an alert for a capture-group match only when the
  whitespace-trimmed matched text differs from that group's configured replacement string;
  a match whose trimmed text equals the replacement produces no alert: the alerts are, in
  order, the matches whose text differs, one alert for each.
\<close>

theorem checkSubstitution_alerts_only_when_differs:
  assumes "checkSubstitution E txt chk f r repl = Inr alerts"
  shows "(\<forall>a\<in>set alerts. \<exists>g\<in>set (group_matches r txt).
            Span a = group_loc g \<and> Match a = observed E txt g
            \<and> observed E txt g \<noteq> expected repl g)
     \<and> map alert_key alerts
         = map (group_key E txt)
             (filter (differs E txt repl) (if MatchString r txt then group_matches r txt else []))"
proof -
  have exact: "map alert_key alerts
         = map (group_key E txt)
             (filter (differs E txt repl) (if MatchString r txt then group_matches r txt else []))"
  proof (cases "MatchString r txt")
    case False
    with assms have "alerts = []" by (rule checkSubstitution_no_match)
    with False show ?thesis by simp
  next
    case True
    with assms have "map alert_key alerts
        = map (group_key E txt) (filter (differs E txt repl) (group_matches r txt))"
      by (rule checkSubstitution_alerts)
    with True show ?thesis by simp
  qed
  have only: "\<exists>g\<in>set (group_matches r txt).
      Span a = group_loc g \<and> Match a = observed E txt g \<and> observed E txt g \<noteq> expected repl g"
    if a: "a \<in> set alerts" for a
  proof -
    from a have "alert_key a \<in> set (map alert_key alerts)" by simp
    with exact obtain g where "g \<in> set (group_matches r txt)" and "differs E txt repl g"
      and "alert_key a = group_key E txt g"
      by (auto split: if_splits)
    then show ?thesis
      by (auto simp: alert_key_def group_key_def differs_def)
  qed
  from only exact show ?thesis by blast
qed

theorem checkSubstitution_alerts_only_when_differs_witness:
  "checkSubstitution example_env ''my smart phone'' swap_rule example_file swap_regexp
       [''smartphone''] = Inr [swap_alert]
   \<and> (\<exists>g\<in>set (group_matches swap_regexp ''my smart phone'').
         Span swap_alert = group_loc g \<and> Match swap_alert = observed example_env ''my smart phone'' g
         \<and> observed example_env ''my smart phone'' g \<noteq> expected [''smartphone''] g)
   \<and> group_matches swap_regexp ''my smartphone'' = [([3, 13, 3, 13], 2)]
   \<and> observed example_env ''my smartphone'' ([3, 13, 3, 13], 2)
       = expected [''smartphone''] ([3, 13, 3, 13], 2)
   \<and> checkSubstitution example_env ''my smartphone'' swap_rule example_file swap_regexp
       [''smartphone''] = Inr []"
proof -
  have one: "checkSubstitution example_env ''my smart phone'' swap_rule example_file swap_regexp
       [''smartphone''] = Inr [swap_alert]"
    by code_simp
  have g: "group_matches swap_regexp ''my smartphone'' = [([3, 13, 3, 13], 2)]"
    by code_simp
  have eq: "observed example_env ''my smartphone'' ([3, 13, 3, 13], 2)
       = expected [''smartphone''] ([3, 13, 3, 13], 2)"
    by code_simp
  have two: "checkSubstitution example_env ''my smartphone'' swap_rule example_file swap_regexp
       [''smartphone''] = Inr []"
    by code_simp
  from checkSubstitution_alerts_only_when_differs [OF one]
  have "\<exists>g\<in>set (group_matches swap_regexp ''my smart phone'').
         Span swap_alert = group_loc g \<and> Match swap_alert = observed example_env ''my smart phone'' g
         \<and> observed example_env ''my smart phone'' g \<noteq> expected [''smartphone''] g"
    by simp
  with one g eq two show ?thesis by blast
qed

end
